theory Spec2Isabelle
  imports Main
begin

section \<open>JavaScript values seen by the screen\<close>

text \<open>
  The type annotations of \<^verbatim>\<open>App.tsx\<close> are erased when it runs: \<^verbatim>\<open>res.json()\<close> yields
  whatever the server sent, and \<^verbatim>\<open>const results: Character[] = json.results\<close> checks
  nothing. The model therefore keeps the untyped values. A number carries an integer: the
  code only tests numbers of the payload for truthiness.
\<close>

datatype jsval =
    JUndefined
  | JNull
  | JBool bool
  | JNum int
  | JStr string
  | JArr "jsval list"
  | JObj "(string \<times> jsval) list"

text \<open>What a \<^verbatim>\<open>throw\<close> or a rejected promise carries into the \<^verbatim>\<open>catch\<close> block.\<close>

datatype exn =
    NetworkError
  | HttpError nat
  | SyntaxError
  | TypeError

text \<open>\<^verbatim>\<open>!!v\<close>\<close>

fun truthy :: "jsval \<Rightarrow> bool" where
  "truthy JUndefined = False"
| "truthy JNull = False"
| "truthy (JBool b) = b"
| "truthy (JNum n) = (n \<noteq> 0)"
| "truthy (JStr s) = (s \<noteq> [])"
| "truthy (JArr xs) = True"
| "truthy (JObj kvs) = True"

text \<open>
  \<^verbatim>\<open>v.k\<close> for the three names the code reads (\<^verbatim>\<open>results\<close>, \<^verbatim>\<open>info\<close>, \<^verbatim>\<open>next\<close>), none of
  which a built-in prototype defines: reading a property of \<^verbatim>\<open>null\<close> or \<^verbatim>\<open>undefined\<close>
  throws, an object answers with its own property, every other value with \<^verbatim>\<open>undefined\<close>.
\<close>

fun getProp :: "jsval \<Rightarrow> string \<Rightarrow> exn + jsval" where
  "getProp JUndefined k = Inl TypeError"
| "getProp JNull k = Inl TypeError"
| "getProp (JObj kvs) k = Inr (case map_of kvs k of None \<Rightarrow> JUndefined | Some v \<Rightarrow> v)"
| "getProp v k = Inr JUndefined"

text \<open>
  \<^verbatim>\<open>...v\<close> inside an array literal: arrays and strings are iterable, the other values of
  this model are not and the spread throws.
\<close>

fun spread :: "jsval \<Rightarrow> exn + jsval list" where
  "spread (JArr xs) = Inr xs"
| "spread (JStr s) = Inr (map (\<lambda>c. JStr [c]) s)"
| "spread v = Inl TypeError"

section \<open>Component state and its setters\<close>

text \<open>
  The \<^verbatim>\<open>useState\<close> cells of \<^verbatim>\<open>App\<close> that the fetch logic reads or writes. The cell
  \<^verbatim>\<open>selected\<close> belongs to the detail view and is touched by no fetch path. The page
  number is a JavaScript number that only ever starts at 1 and grows by 1; it is an
  integer here, which is exact below \<open>2 ^ 53\<close>.
\<close>

record state =
  characters :: jsval
  page :: int
  loading :: bool
  loadingMore :: bool
  hasMore :: bool
  error :: "string option"

definition initialState :: state where
  "initialState =
     \<lparr>characters = JArr [], page = 1, loading = False, loadingMore = False,
      hasMore = True, error = None\<rparr>"

text \<open>
  One constructor for each way the code calls a setter. \<open>SetCharactersAppend results\<close> is
  \<^verbatim>\<open>setCharacters(prev => [...prev, ...results])\<close>.
\<close>

datatype action =
    SetCharacters jsval
  | SetCharactersAppend jsval
  | SetPage int
  | SetLoading bool
  | SetLoadingMore bool
  | SetHasMore bool
  | SetError "string option"

text \<open>
  Applying one setter call. Only the updater function can throw, when React evaluates it
  on a previous value or a \<^verbatim>\<open>results\<close> that cannot be spread; that happens outside the
  \<^verbatim>\<open>try\<close> block of \<^verbatim>\<open>fetchCharacters\<close>.
\<close>

fun dispatch :: "action \<Rightarrow> state \<Rightarrow> exn + state" where
  "dispatch (SetCharacters v) s = Inr (s\<lparr>characters := v\<rparr>)"
| "dispatch (SetCharactersAppend results) s =
     (case spread (characters s) of
        Inl e \<Rightarrow> Inl e
      | Inr prev \<Rightarrow>
          (case spread results of
             Inl e \<Rightarrow> Inl e
           | Inr new \<Rightarrow> Inr (s\<lparr>characters := JArr (prev @ new)\<rparr>)))"
| "dispatch (SetPage n) s = Inr (s\<lparr>page := n\<rparr>)"
| "dispatch (SetLoading b) s = Inr (s\<lparr>loading := b\<rparr>)"
| "dispatch (SetLoadingMore b) s = Inr (s\<lparr>loadingMore := b\<rparr>)"
| "dispatch (SetHasMore b) s = Inr (s\<lparr>hasMore := b\<rparr>)"
| "dispatch (SetError m) s = Inr (s\<lparr>error := m\<rparr>)"

fun dispatchAll :: "action list \<Rightarrow> state \<Rightarrow> exn + state" where
  "dispatchAll [] s = Inr s"
| "dispatchAll (a # as) s =
     (case dispatch a s of Inl e \<Rightarrow> Inl e | Inr s' \<Rightarrow> dispatchAll as s')"

section \<open>fetchCharacters\<close>

text \<open>
  What the awaited \<^verbatim>\<open>fetch\<close> can come back with: a rejected promise, or a response with
  its \<^verbatim>\<open>ok\<close> flag, its status and its body (\<open>None\<close> when \<^verbatim>\<open>res.json()\<close> rejects).
\<close>

datatype response =
    Rejected
  | Http bool nat "jsval option"

text \<open>The message of \<^verbatim>\<open>setError\<close>, as UTF-8 bytes.\<close>

definition errorMessage :: string where
  "errorMessage =
     ''N'' @ [CHR 0xC3, CHR 0xA3] @ ''o foi poss'' @ [CHR 0xC3, CHR 0xAD]
       @ ''vel carregar personagens. Tente novamente.''"

text \<open>The setter calls of \<^verbatim>\<open>fetchCharacters(p)\<close> before it awaits the response.\<close>

definition fetchBegin :: "int \<Rightarrow> action list" where
  "fetchBegin p = [if p = 1 then SetLoading True else SetLoadingMore True, SetError None]"

text \<open>\<^verbatim>\<open>!!json.info && !!json.info.next\<close>\<close>

definition hasNext :: "jsval \<Rightarrow> exn + bool" where
  "hasNext json =
     (case getProp json ''info'' of
        Inl e \<Rightarrow> Inl e
      | Inr info \<Rightarrow>
          if \<not> truthy info then Inr False
          else (case getProp info ''next'' of
                  Inl e \<Rightarrow> Inl e
                | Inr nxt \<Rightarrow> Inr (truthy nxt)))"

text \<open>
  The rest of the \<^verbatim>\<open>try\<close> block once the response is there: the setter calls made, and
  the exception that ended the block, if any.
\<close>

definition fetchTry :: "int \<Rightarrow> response \<Rightarrow> action list \<times> exn option" where
  "fetchTry p r =
     (case r of
        Rejected \<Rightarrow> ([], Some NetworkError)
      | Http ok status body \<Rightarrow>
          if \<not> ok then ([], Some (HttpError status))
          else (case body of
                  None \<Rightarrow> ([], Some SyntaxError)
                | Some json \<Rightarrow>
                    (case getProp json ''results'' of
                       Inl e \<Rightarrow> ([], Some e)
                     | Inr results \<Rightarrow>
                         (let store = (if p = 1 then SetCharacters results
                                       else SetCharactersAppend results)
                          in case hasNext json of
                               Inl e \<Rightarrow> ([store], Some e)
                             | Inr b \<Rightarrow> ([store, SetHasMore b], None)))))"

text \<open>The whole continuation: \<^verbatim>\<open>try\<close>, then \<^verbatim>\<open>catch\<close> if it threw, then \<^verbatim>\<open>finally\<close>.\<close>

definition fetchSettle :: "int \<Rightarrow> response \<Rightarrow> action list" where
  "fetchSettle p r =
     (case fetchTry p r of
        (calls, None) \<Rightarrow> calls
      | (calls, Some e) \<Rightarrow> calls @ [SetError (Some errorMessage)])
     @ [SetLoading False, SetLoadingMore False]"

section \<open>The screen: cells, last render, outstanding requests\<close>

text \<open>
  A setter call changes a cell; it does not change what the last render has put on the
  screen, nor the constants \<^verbatim>\<open>loading\<close>, \<^verbatim>\<open>loadingMore\<close>, \<^verbatim>\<open>hasMore\<close> and \<^verbatim>\<open>page\<close> that
  the handlers built by that render closed over. So the screen keeps both: \<open>ui\<close> holds
  the cells as the setter calls have left them, \<open>rendered\<close> the values the last render
  saw. A re-render copies the first into the second.
\<close>

record config =
  ui :: state
  rendered :: state
  inflight :: "int list"

definition initialConfig :: config where
  "initialConfig = \<lparr>ui = initialState, rendered = initialState, inflight = []\<rparr>"

text \<open>
  Calling \<^verbatim>\<open>fetchCharacters(p)\<close>: it runs up to the \<^verbatim>\<open>await\<close> and leaves a request out.
  It reads no cell, it only calls setters.
\<close>

definition fetchCharacters :: "int \<Rightarrow> config \<Rightarrow> exn + config" where
  "fetchCharacters p c =
     (case dispatchAll (fetchBegin p) (ui c) of
        Inl e \<Rightarrow> Inl e
      | Inr s \<Rightarrow> Inr (c\<lparr>ui := s, inflight := inflight c @ [p]\<rparr>))"

text \<open>
  The response to the request for page \<open>p\<close> arrives and the continuation runs. The
  updater of \<^verbatim>\<open>setCharacters\<close> receives the current items, not those of a render.
\<close>

definition fetchResume :: "int \<Rightarrow> response \<Rightarrow> config \<Rightarrow> exn + config" where
  "fetchResume p r c =
     (case dispatchAll (fetchSettle p r) (ui c) of
        Inl e \<Rightarrow> Inl e
      | Inr s \<Rightarrow> Inr (c\<lparr>ui := s\<rparr>))"

text \<open>
  \<^verbatim>\<open>loadMore\<close> tests the flags and reads the page number of the render that built it;
  its setter calls go to the cells.
\<close>

definition loadMore :: "config \<Rightarrow> exn + config" where
  "loadMore c =
     (if loadingMore (rendered c) \<or> loading (rendered c) \<or> \<not> hasMore (rendered c) then Inr c
      else (let next = page (rendered c) + 1
            in case dispatch (SetPage next) (ui c) of
                 Inl e \<Rightarrow> Inl e
               | Inr s \<Rightarrow> fetchCharacters next (c\<lparr>ui := s\<rparr>)))"

text \<open>The effect run once after the first render.\<close>

definition mount :: "config \<Rightarrow> exn + config" where
  "mount c = fetchCharacters 1 c"

text \<open>
  What is rendered: \<^verbatim>\<open>!loading && error\<close> shows the message with the retry button,
  \<^verbatim>\<open>!loading && !error\<close> shows the list whose \<^verbatim>\<open>onEndReached\<close> is \<^verbatim>\<open>loadMore\<close>.
\<close>

definition errorShown :: "state \<Rightarrow> bool" where
  "errorShown s = (case error s of None \<Rightarrow> False | Some m \<Rightarrow> m \<noteq> [])"

definition retryVisible :: "state \<Rightarrow> bool" where
  "retryVisible s = (\<not> loading s \<and> errorShown s)"

definition listVisible :: "state \<Rightarrow> bool" where
  "listVisible s = (\<not> loading s \<and> \<not> errorShown s)"

text \<open>The button's \<^verbatim>\<open>onPress\<close> handler.\<close>

definition retry :: "config \<Rightarrow> exn + config" where
  "retry c = fetchCharacters 1 c"

text \<open>The component function runs again with the current cells.\<close>

definition render :: "config \<Rightarrow> config" where
  "render c = c\<lparr>rendered := ui c\<rparr>"

text \<open>
  The events of the running screen. A handler can fire only if the last render put its
  component on the screen; a response can only arrive for a request that is out, the
  oldest first. When React re-renders is not decided by this file, so \<open>Render\<close> is an
  event of its own: two handlers may run on the same render.
\<close>

datatype event = EndReached | RetryPressed | Response response | Render

fun step :: "event \<Rightarrow> config \<Rightarrow> exn + config" where
  "step EndReached c = (if listVisible (rendered c) then loadMore c else Inr c)"
| "step RetryPressed c = (if retryVisible (rendered c) then retry c else Inr c)"
| "step (Response r) c =
     (case inflight c of
        [] \<Rightarrow> Inr c
      | p # ps \<Rightarrow> fetchResume p r (c\<lparr>inflight := ps\<rparr>))"
| "step Render c = Inr (render c)"

fun run :: "event list \<Rightarrow> config \<Rightarrow> exn + config" where
  "run [] c = Inr c"
| "run (e # es) c = (case step e c of Inl x \<Rightarrow> Inl x | Inr c' \<Rightarrow> run es c')"

text \<open>The configurations the screen can be in after it has mounted.\<close>

inductive reachable :: "config \<Rightarrow> bool" where
  mounted: "mount initialConfig = Inr c \<Longrightarrow> reachable c"
| stepped: "reachable c \<Longrightarrow> step e c = Inr c' \<Longrightarrow> reachable c'"

section \<open>Vocabulary of the specification\<close>

text \<open>
  The specification speaks of one \<open>phase\<close>; the component keeps four cells. The phase
  of a state is read off them in the order the render function tests them: the full-screen spinner,
  then the error view, then the list with its footer spinner or end marker. The state
  before the mount effect has run is not told apart from a ready one by any cell.
\<close>

datatype phase = InitialLoading | Failed | IncrementalLoading | Exhausted | Ready

definition phase_of :: "state \<Rightarrow> phase" where
  "phase_of s =
     (if loading s then InitialLoading
      else if errorShown s then Failed
      else if loadingMore s then IncrementalLoading
      else if \<not> hasMore s then Exhausted
      else Ready)"

text \<open>A fetch fails when its \<^verbatim>\<open>try\<close> block ends in an exception, so that \<^verbatim>\<open>catch\<close> runs.\<close>

definition failed :: "int \<Rightarrow> response \<Rightarrow> bool" where
  "failed p r = (snd (fetchTry p r) \<noteq> None)"


text \<open>
  \<^verbatim>\<open>json.results\<close> of a response whose \<^verbatim>\<open>try\<close> block gets as far as reading it.
\<close>

definition resultsOf :: "response \<Rightarrow> jsval option" where
  "resultsOf r =
     (case r of
        Rejected \<Rightarrow> None
      | Http ok status body \<Rightarrow>
          if \<not> ok then None
          else (case body of
                  None \<Rightarrow> None
                | Some json \<Rightarrow>
                    (case getProp json ''results'' of Inl e \<Rightarrow> None | Inr v \<Rightarrow> Some v)))"

section \<open>Sample data\<close>

definition entity :: "int \<Rightarrow> jsval" where
  "entity n = JObj [(''id'', JNum n)]"

definition envelope :: "jsval list \<Rightarrow> jsval \<Rightarrow> response" where
  "envelope es nxt =
     Http True 200 (Some (JObj [(''info'', JObj [(''next'', nxt)]), (''results'', JArr es)]))"

definition firstPage :: response where
  "firstPage =
     envelope [entity 1, entity 2] (JStr ''https://rickandmortyapi.com/api/character?page=2'')"

definition lastPage :: response where
  "lastPage = envelope [entity 3] JNull"

definition serverError :: response where
  "serverError = Http False 500 None"

definition noResults :: response where
  "noResults = Http True 200 (Some (JObj []))"

text \<open>
  The screen after mounting and re-rendering with the spinner, and after the first page
  has arrived and is shown.
\<close>

definition mountedConfig :: config where
  "mountedConfig =
     \<lparr>ui = initialState\<lparr>loading := True\<rparr>, rendered = initialState\<lparr>loading := True\<rparr>,
      inflight = [1]\<rparr>"

definition readyConfig :: config where
  "readyConfig =
     \<lparr>ui = initialState\<lparr>characters := JArr [entity 1, entity 2]\<rparr>,
      rendered = initialState\<lparr>characters := JArr [entity 1, entity 2]\<rparr>,
      inflight = []\<rparr>"

text \<open>
  \<^verbatim>\<open>loadMore\<close> has run once on that screen and the screen has not re-rendered yet: the
  request for page 2 is out and \<open>loadingMore\<close> is up in the cell, not in the render.
\<close>

definition midFlightConfig :: config where
  "midFlightConfig =
     \<lparr>ui = initialState\<lparr>characters := JArr [entity 1, entity 2], page := 2,
                          loadingMore := True\<rparr>,
      rendered = initialState\<lparr>characters := JArr [entity 1, entity 2]\<rparr>,
      inflight = [2]\<rparr>"

text \<open>The first page is shown and the request for the second one has failed.\<close>

definition failedConfig :: config where
  "failedConfig =
     \<lparr>ui = initialState\<lparr>characters := JArr [entity 1, entity 2], page := 2,
                          error := Some errorMessage\<rparr>,
      rendered = initialState\<lparr>characters := JArr [entity 1, entity 2], page := 2,
                                error := Some errorMessage\<rparr>,
      inflight = []\<rparr>"

text \<open>The first request has failed: nothing is loaded.\<close>

definition failedEmptyConfig :: config where
  "failedEmptyConfig =
     \<lparr>ui = initialState\<lparr>error := Some errorMessage\<rparr>,
      rendered = initialState\<lparr>error := Some errorMessage\<rparr>, inflight = []\<rparr>"


section \<open>Facts about the building blocks\<close>

lemma errorMessage_nonempty: "errorMessage \<noteq> []"
  by (simp add: errorMessage_def)

lemma dispatchAll_append:
  "dispatchAll (as @ bs) s =
     (case dispatchAll as s of Inl e \<Rightarrow> Inl e | Inr s' \<Rightarrow> dispatchAll bs s')"
  by (induction as arbitrary: s) (auto split: sum.splits)

lemma dispatchAll_fetchBegin:
  "dispatchAll (fetchBegin p) s =
     Inr (if p = 1 then s\<lparr>loading := True, error := None\<rparr>
          else s\<lparr>loadingMore := True, error := None\<rparr>)"
  by (simp add: fetchBegin_def)

lemma fetchCharacters_eq:
  "fetchCharacters p c =
     Inr (c\<lparr>ui := (if p = 1 then (ui c)\<lparr>loading := True, error := None\<rparr>
                   else (ui c)\<lparr>loadingMore := True, error := None\<rparr>),
            inflight := inflight c @ [p]\<rparr>)"
  by (simp add: fetchCharacters_def dispatchAll_fetchBegin)

lemma getProp_truthy: "truthy v \<Longrightarrow> \<exists>w. getProp v k = Inr w"
  by (cases v) simp_all

lemma getProp_throws_iff: "(\<exists>e. getProp v k = Inl e) \<longleftrightarrow> v = JNull \<or> v = JUndefined"
  by (cases v) auto

lemma getProp_any_name: "getProp v k = Inr w \<Longrightarrow> \<exists>w'. getProp v k' = Inr w'"
  by (cases v) simp_all

lemma hasNext_defined:
  assumes "getProp json k = Inr v"
  shows "\<exists>b. hasNext json = Inr b"
proof -
  obtain info where info: "getProp json ''info'' = Inr info"
    using getProp_any_name [OF assms] by blast
  show ?thesis
  proof (cases "truthy info")
    case True
    then obtain nxt where "getProp info ''next'' = Inr nxt"
      using getProp_truthy by blast
    with info True show ?thesis by (simp add: hasNext_def)
  next
    case False
    with info show ?thesis by (auto simp: hasNext_def)
  qed
qed

lemma fetchTry_throws_early: "fetchTry p r = (calls, Some e) \<Longrightarrow> calls = []"
  by (auto simp: fetchTry_def Let_def split: response.splits if_splits option.splits sum.splits
           dest: hasNext_defined)

lemma failed_iff:
  "failed p r =
     (case r of
        Rejected \<Rightarrow> True
      | Http ok status body \<Rightarrow>
          \<not> ok \<or> body = None \<or> body = Some JNull \<or> body = Some JUndefined)"
proof (cases r)
  case Rejected
  then show ?thesis by (simp add: failed_def fetchTry_def)
next
  case (Http ok status body)
  show ?thesis
  proof (cases "ok \<and> body \<noteq> None")
    case False
    with Http show ?thesis by (auto simp: failed_def fetchTry_def)
  next
    case True
    then obtain json where body: "body = Some json" and ok: ok by auto
    show ?thesis
    proof (cases "getProp json ''results''")
      case (Inl e)
      then have "json = JNull \<or> json = JUndefined"
        using getProp_throws_iff by blast
      with Http body ok Inl show ?thesis
        by (auto simp: failed_def fetchTry_def)
    next
      case (Inr results)
      then obtain b where "hasNext json = Inr b"
        using hasNext_defined by blast
      moreover have "json \<noteq> JNull \<and> json \<noteq> JUndefined"
        using Inr by (cases json) simp_all
      ultimately show ?thesis
        using Http body ok Inr by (simp add: failed_def fetchTry_def Let_def)
    qed
  qed
qed

lemma fetchSettle_failed:
  assumes "failed p r"
  shows "fetchSettle p r = [SetError (Some errorMessage), SetLoading False, SetLoadingMore False]"
proof -
  obtain calls e where t: "fetchTry p r = (calls, Some e)"
    using assms by (cases "fetchTry p r") (auto simp: failed_def)
  then have "calls = []" by (rule fetchTry_throws_early)
  with t show ?thesis by (simp add: fetchSettle_def)
qed

lemma fetchResume_failed:
  "failed p r \<Longrightarrow>
   fetchResume p r c =
     Inr (c\<lparr>ui := (ui c)\<lparr>error := Some errorMessage, loading := False, loadingMore := False\<rparr>\<rparr>)"
  by (simp add: fetchResume_def fetchSettle_failed)

lemma fetchSettle_ends:
  "\<exists>calls. fetchSettle p r = calls @ [SetLoading False, SetLoadingMore False]"
  by (simp add: fetchSettle_def)

lemma dispatchAll_finally:
  "dispatchAll [SetLoading False, SetLoadingMore False] s = Inr s' \<Longrightarrow>
   \<not> loading s' \<and> \<not> loadingMore s'"
  by auto

lemma fetchResume_flags:
  assumes "fetchResume p r c = Inr c'"
  shows "\<not> loading (ui c') \<and> \<not> loadingMore (ui c')"
proof -
  obtain calls where c: "fetchSettle p r = calls @ [SetLoading False, SetLoadingMore False]"
    using fetchSettle_ends by blast
  from assms obtain s' where s': "dispatchAll (fetchSettle p r) (ui c) = Inr s'" and c': "c' = c\<lparr>ui := s'\<rparr>"
    by (auto simp: fetchResume_def split: sum.splits)
  from s' c obtain s1 where "dispatchAll [SetLoading False, SetLoadingMore False] s1 = Inr s'"
    by (auto simp: dispatchAll_append split: sum.splits)
  then have "\<not> loading s' \<and> \<not> loadingMore s'" by (rule dispatchAll_finally)
  with c' show ?thesis by simp
qed

lemma resultsOf_failed: "resultsOf r = None \<longleftrightarrow> failed p r"
  by (auto simp: resultsOf_def failed_iff getProp_throws_iff split: response.splits option.splits sum.splits)

lemma fetchSettle_ok:
  assumes "resultsOf r = Some v"
  shows "\<exists>b. fetchSettle p r =
           [if p = 1 then SetCharacters v else SetCharactersAppend v, SetHasMore b,
            SetLoading False, SetLoadingMore False]"
proof -
  from assms obtain status json where r: "r = Http True status (Some json)"
    and v: "getProp json ''results'' = Inr v"
    by (auto simp: resultsOf_def split: response.splits if_splits option.splits sum.splits)
  from v obtain b where "hasNext json = Inr b"
    using hasNext_defined by blast
  with r v show ?thesis
    by (simp add: fetchSettle_def fetchTry_def)
qed

lemma loadMore_guard:
  "loadingMore (rendered c) \<or> loading (rendered c) \<or> \<not> hasMore (rendered c) \<Longrightarrow>
   loadMore c = Inr c"
  by (simp add: loadMore_def)

lemma loadMore_passes:
  "\<not> loadingMore (rendered c) \<Longrightarrow> \<not> loading (rendered c) \<Longrightarrow> hasMore (rendered c) \<Longrightarrow>
   loadMore c =
     Inr (c\<lparr>ui := (if page (rendered c) = 0
                    then (ui c)\<lparr>page := 1, loading := True, error := None\<rparr>
                    else (ui c)\<lparr>page := page (rendered c) + 1, loadingMore := True,
                                error := None\<rparr>),
            inflight := inflight c @ [page (rendered c) + 1]\<rparr>)"
  by (simp add: loadMore_def fetchCharacters_eq Let_def)

lemma phase_Ready_iff:
  "phase_of s = Ready \<longleftrightarrow> \<not> loading s \<and> \<not> errorShown s \<and> \<not> loadingMore s \<and> hasMore s"
  by (simp add: phase_of_def)

lemma phase_Failed_iff: "phase_of s = Failed \<longleftrightarrow> \<not> loading s \<and> errorShown s"
  by (simp add: phase_of_def)

lemma fetchResume_frame:
  assumes "fetchResume p r c = Inr c'"
  shows "page (ui c') = page (ui c) \<and> inflight c' = inflight c"
proof (cases "resultsOf r")
  case None
  then have "failed p r" using resultsOf_failed [of r p] by simp
  with assms show ?thesis by (auto simp: fetchResume_failed)
next
  case (Some v)
  then obtain b where "fetchSettle p r =
      [if p = 1 then SetCharacters v else SetCharactersAppend v, SetHasMore b,
       SetLoading False, SetLoadingMore False]"
    using fetchSettle_ok by blast
  with assms show ?thesis
    by (auto simp: fetchResume_def split: sum.splits if_splits)
qed

lemma run_append: "run xs c = Inr c' \<Longrightarrow> run (xs @ ys) c = run ys c'"
  by (induction xs arbitrary: c) (auto split: sum.splits)

text \<open>The page number is positive in every cell and every render the screen can reach.\<close>

lemma reachable_pages:
  assumes "reachable c"
  shows "0 < page (ui c) \<and> 0 < page (rendered c)"
  using assms
proof (induction rule: reachable.induct)
  case (mounted c)
  then show ?case
    by (auto simp: mount_def fetchCharacters_eq initialConfig_def initialState_def)
next
  case (stepped c e c')
  show ?case
  proof (cases e)
    case EndReached
    with stepped show ?thesis
      by (cases "loadingMore (rendered c) \<or> loading (rendered c) \<or> \<not> hasMore (rendered c)")
         (auto simp: loadMore_guard loadMore_passes split: if_splits)
  next
    case RetryPressed
    with stepped show ?thesis
      by (auto simp: retry_def fetchCharacters_eq split: if_splits)
  next
    case (Response r)
    show ?thesis
    proof (cases "inflight c")
      case Nil
      with Response stepped show ?thesis by simp
    next
      case (Cons p ps)
      with Response stepped.hyps(2)
      have res: "fetchResume p r (c\<lparr>inflight := ps\<rparr>) = Inr c'" by simp
      then have "rendered c' = rendered c"
        by (auto simp: fetchResume_def split: sum.splits)
      with fetchResume_frame [OF res] stepped.IH show ?thesis by simp
    qed
  next
    case Render
    with stepped show ?thesis by (auto simp: render_def)
  qed
qed

section \<open>The sample data, evaluated\<close>

lemma resultsOf_samples:
  "resultsOf firstPage = Some (JArr [entity 1, entity 2])"
  "resultsOf lastPage = Some (JArr [entity 3])"
  "resultsOf serverError = None"
  "resultsOf noResults = Some JUndefined"
  by (simp_all add: resultsOf_def firstPage_def lastPage_def serverError_def
        noResults_def envelope_def)

lemma fetchSettle_samples:
  "fetchSettle p firstPage =
     [if p = 1 then SetCharacters (JArr [entity 1, entity 2])
      else SetCharactersAppend (JArr [entity 1, entity 2]),
      SetHasMore True, SetLoading False, SetLoadingMore False]"
  "fetchSettle p lastPage =
     [if p = 1 then SetCharacters (JArr [entity 3]) else SetCharactersAppend (JArr [entity 3]),
      SetHasMore False, SetLoading False, SetLoadingMore False]"
  "fetchSettle p serverError =
     [SetError (Some errorMessage), SetLoading False, SetLoadingMore False]"
  "fetchSettle p noResults =
     [if p = 1 then SetCharacters JUndefined else SetCharactersAppend JUndefined,
      SetHasMore False, SetLoading False, SetLoadingMore False]"
  by (simp_all add: fetchSettle_def fetchTry_def hasNext_def firstPage_def lastPage_def
        serverError_def noResults_def envelope_def)

lemmas sample_simps =
  fetchResume_def fetchSettle_samples initialState_def listVisible_def retryVisible_def
  errorShown_def errorMessage_nonempty loadMore_def retry_def fetchCharacters_eq render_def

lemma mount_then_render:
  "mount initialConfig = Inr c \<Longrightarrow> step Render c = Inr mountedConfig"
  by (auto simp: mount_def fetchCharacters_eq initialConfig_def mountedConfig_def
        initialState_def render_def)

lemma reachable_mounted: "reachable mountedConfig"
proof -
  obtain c where c: "mount initialConfig = Inr c"
    by (simp add: mount_def fetchCharacters_eq)
  then have "reachable c" by (rule reachable.mounted)
  then show ?thesis using mount_then_render [OF c] by (rule reachable.stepped)
qed

lemma reachable_run: "reachable c \<Longrightarrow> run es c = Inr c' \<Longrightarrow> reachable c'"
proof (induction es arbitrary: c)
  case Nil
  then show ?case by simp
next
  case (Cons e es)
  then show ?case
    by (cases "step e c") (auto simp del: step.simps intro: reachable.stepped)
qed

lemma run_to_failedEmpty:
  "run [Response serverError, Render] mountedConfig = Inr failedEmptyConfig"
  by (simp add: mountedConfig_def failedEmptyConfig_def sample_simps)

lemma run_to_ready: "run [Response firstPage, Render] mountedConfig = Inr readyConfig"
  by (simp add: mountedConfig_def readyConfig_def sample_simps)

lemma step_ready_EndReached: "step EndReached readyConfig = Inr midFlightConfig"
  by (simp add: readyConfig_def midFlightConfig_def sample_simps)

lemma run_midFlight_to_failed:
  "run [Render, Response serverError, Render] midFlightConfig = Inr failedConfig"
  by (simp add: midFlightConfig_def failedConfig_def sample_simps)

lemma run_ready_to_failed:
  "run [EndReached, Render, Response serverError, Render] readyConfig = Inr failedConfig"
  using run_midFlight_to_failed by (simp del: step.simps add: step_ready_EndReached)

lemma reachable_ready: "reachable readyConfig"
  using reachable_mounted run_to_ready by (rule reachable_run)

lemma failedConfig_facts:
  "phase_of (ui failedConfig) = Failed"
  "retryVisible (rendered failedConfig)"
  "characters (ui failedConfig) = JArr [entity 1, entity 2]"
  "page (ui failedConfig) = 2"
  by (simp_all add: failedConfig_def initialState_def phase_of_def retryVisible_def
        errorShown_def errorMessage_nonempty)

lemma retry_failedConfig:
  "step RetryPressed failedConfig =
     Inr \<lparr>ui = initialState\<lparr>characters := JArr [entity 1, entity 2], page := 2,
                              loading := True\<rparr>,
          rendered = initialState\<lparr>characters := JArr [entity 1, entity 2], page := 2,
                                    error := Some errorMessage\<rparr>,
          inflight = [1]\<rparr>"
  by (simp add: failedConfig_facts(2) retry_def fetchCharacters_eq)
     (simp add: failedConfig_def initialState_def)


section \<open>Properties of the pagination controller\<close>

text \<open>
  C1 (single-flight) does not hold of the code. The guard of \<^verbatim>\<open>loadMore\<close> tests the
  flags of the render that built the handler, and \<^verbatim>\<open>setLoadingMore(true)\<close> changes the
  cell, not those constants. When the list reaches its end twice on the same render of
  the ready screen, both calls pass the guard and both ask for page 2, so two requests
  are out at once; when the two answers arrive the page is appended twice. With a
  re-render between the two events the second call returns at the guard.
\<close>

theorem second_trigger_on_same_render:
  "reachable readyConfig
   \<and> inflight readyConfig = []
   \<and> run [EndReached, EndReached] readyConfig =
       Inr \<lparr>ui = initialState\<lparr>characters := JArr [entity 1, entity 2], page := 2,
                                loadingMore := True\<rparr>,
            rendered = initialState\<lparr>characters := JArr [entity 1, entity 2]\<rparr>,
            inflight = [2, 2]\<rparr>
   \<and> run [EndReached, EndReached, Render, Response lastPage, Response lastPage, Render]
         readyConfig =
       Inr \<lparr>ui = initialState\<lparr>characters := JArr [entity 1, entity 2, entity 3, entity 3],
                                page := 2, hasMore := False\<rparr>,
            rendered = initialState\<lparr>characters := JArr [entity 1, entity 2, entity 3, entity 3],
                                      page := 2, hasMore := False\<rparr>,
            inflight = []\<rparr>
   \<and> run [EndReached, Render, EndReached] readyConfig =
       Inr \<lparr>ui = initialState\<lparr>characters := JArr [entity 1, entity 2], page := 2,
                                loadingMore := True\<rparr>,
            rendered = initialState\<lparr>characters := JArr [entity 1, entity 2], page := 2,
                                      loadingMore := True\<rparr>,
            inflight = [2]\<rparr>"
proof -
  have a: "inflight readyConfig = []" by (simp add: readyConfig_def)
  have b: "run [EndReached, EndReached] readyConfig =
       Inr \<lparr>ui = initialState\<lparr>characters := JArr [entity 1, entity 2], page := 2,
                                loadingMore := True\<rparr>,
            rendered = initialState\<lparr>characters := JArr [entity 1, entity 2]\<rparr>,
            inflight = [2, 2]\<rparr>"
    by (simp add: readyConfig_def sample_simps)
  have c: "run [EndReached, EndReached, Render, Response lastPage, Response lastPage, Render]
         readyConfig =
       Inr \<lparr>ui = initialState\<lparr>characters := JArr [entity 1, entity 2, entity 3, entity 3],
                                page := 2, hasMore := False\<rparr>,
            rendered = initialState\<lparr>characters := JArr [entity 1, entity 2, entity 3, entity 3],
                                      page := 2, hasMore := False\<rparr>,
            inflight = []\<rparr>"
    by (simp add: readyConfig_def sample_simps)
  have d: "run [EndReached, Render, EndReached] readyConfig =
       Inr \<lparr>ui = initialState\<lparr>characters := JArr [entity 1, entity 2], page := 2,
                                loadingMore := True\<rparr>,
            rendered = initialState\<lparr>characters := JArr [entity 1, entity 2], page := 2,
                                      loadingMore := True\<rparr>,
            inflight = [2]\<rparr>"
    by (simp add: readyConfig_def sample_simps)
  from reachable_ready a b c d show ?thesis by blast
qed

text \<open>
  C2 (append-only ordering). Whenever \<^verbatim>\<open>loadMore()\<close> passes its guard, the items held
  are the list \<open>items\<close> and the page number the handler reads is not 0 (it never is: it
  starts at 1 and only grows), and the response to the request it issues carries the
  array \<open>newPageEntities\<close> as its results, the items afterwards are
  \<open>items @ newPageEntities\<close>: nothing is reordered, dropped or merged by id. The
  example appends a page that repeats the ids already held.
\<close>

theorem loadMore_success_appends:
  assumes "\<not> loadingMore (rendered c)" "\<not> loading (rendered c)" "hasMore (rendered c)"
    and "page (rendered c) \<noteq> 0"
    and "characters (ui c) = JArr items"
    and "resultsOf r = Some (JArr newPageEntities)"
  shows "\<exists>c1 c2. loadMore c = Inr c1 \<and> inflight c1 = inflight c @ [page (rendered c) + 1]
           \<and> fetchResume (page (rendered c) + 1) r c1 = Inr c2
           \<and> characters (ui c2) = JArr (items @ newPageEntities)"
proof -
  obtain b where s: "fetchSettle (page (rendered c) + 1) r =
      [SetCharactersAppend (JArr newPageEntities), SetHasMore b, SetLoading False,
       SetLoadingMore False]"
    using fetchSettle_ok [OF assms(6), of "page (rendered c) + 1"] assms(4) by auto
  show ?thesis
    unfolding loadMore_passes [OF assms(1-3)]
    using assms(4,5) by (simp add: fetchResume_def s)
qed

theorem loadMore_success_appends_witness:
  "\<not> loadingMore (rendered readyConfig) \<and> \<not> loading (rendered readyConfig)
   \<and> hasMore (rendered readyConfig)
   \<and> page (rendered readyConfig) \<noteq> 0
   \<and> characters (ui readyConfig) = JArr [entity 1, entity 2]
   \<and> resultsOf firstPage = Some (JArr [entity 1, entity 2])
   \<and> (\<exists>c1 c2. loadMore readyConfig = Inr c1
           \<and> inflight c1 = inflight readyConfig @ [page (rendered readyConfig) + 1]
           \<and> fetchResume (page (rendered readyConfig) + 1) firstPage c1 = Inr c2
           \<and> characters (ui c2) = JArr ([entity 1, entity 2] @ [entity 1, entity 2]))"
proof -
  have h: "\<not> loadingMore (rendered readyConfig)" "\<not> loading (rendered readyConfig)"
    "hasMore (rendered readyConfig)"
    "page (rendered readyConfig) \<noteq> 0" "characters (ui readyConfig) = JArr [entity 1, entity 2]"
    by (simp_all add: readyConfig_def initialState_def)
  note r = resultsOf_samples(1)
  from loadMore_success_appends [OF h r] h r show ?thesis by blast
qed

text \<open>
  C3 does not hold of the code, by the defect shown under C1. After \<^verbatim>\<open>loadMore\<close> has
  run once on the ready screen and before the re-render, the \<open>loadingMore\<close> cell is up
  and the request for page 2 is out: the phase is \<open>IncrementalLoading\<close>. A second call
  of the same \<^verbatim>\<open>loadMore\<close> passes the guard on the flags of its render and issues a
  second request for page 2.
\<close>

theorem loadMore_mid_flight_fetches_again:
  "step EndReached readyConfig = Inr midFlightConfig
   \<and> phase_of (ui midFlightConfig) = IncrementalLoading
   \<and> inflight midFlightConfig = [2]
   \<and> loadMore midFlightConfig = Inr (midFlightConfig\<lparr>inflight := [2, 2]\<rparr>)
   \<and> loadMore midFlightConfig \<noteq> Inr midFlightConfig"
proof -
  have a: "phase_of (ui midFlightConfig) = IncrementalLoading"
    by (simp add: midFlightConfig_def initialState_def phase_of_def errorShown_def)
  have b: "inflight midFlightConfig = [2]" by (simp add: midFlightConfig_def)
  have c: "loadMore midFlightConfig = Inr (midFlightConfig\<lparr>inflight := [2, 2]\<rparr>)"
    by (simp add: midFlightConfig_def sample_simps)
  have d: "loadMore midFlightConfig \<noteq> Inr midFlightConfig"
    unfolding c by (simp add: midFlightConfig_def)
  from step_ready_EndReached a b c d show ?thesis by blast
qed

text \<open>
  C4, as the specification has it, fails: with the first page loaded and the request for
  the second failed, the retry button asks for page 1 again as an initial load
  (\<open>loading\<close>, not \<open>loadingMore\<close>), and the answer replaces the loaded items instead
  of being appended to them.
\<close>

theorem retry_requests_first_page:
  "run [Response firstPage, Render, EndReached, Render, Response serverError, Render]
       mountedConfig = Inr failedConfig
   \<and> phase_of (ui failedConfig) = Failed
   \<and> characters (ui failedConfig) = JArr [entity 1, entity 2]
   \<and> page (ui failedConfig) = 2
   \<and> step RetryPressed failedConfig =
       Inr \<lparr>ui = initialState\<lparr>characters := JArr [entity 1, entity 2], page := 2,
                                loading := True\<rparr>,
            rendered = initialState\<lparr>characters := JArr [entity 1, entity 2], page := 2,
                                      error := Some errorMessage\<rparr>,
            inflight = [1]\<rparr>
   \<and> run [RetryPressed, Render, Response lastPage, Render] failedConfig =
       Inr \<lparr>ui = initialState\<lparr>characters := JArr [entity 3], page := 2, hasMore := False\<rparr>,
            rendered = initialState\<lparr>characters := JArr [entity 3], page := 2,
                                      hasMore := False\<rparr>,
            inflight = []\<rparr>"
proof -
  have a: "run [Response firstPage, Render, EndReached, Render, Response serverError, Render]
       mountedConfig = Inr failedConfig"
    using run_append [OF run_to_ready, of "[EndReached, Render, Response serverError, Render]"]
      run_ready_to_failed by simp
  have b: "run [RetryPressed, Render, Response lastPage, Render] failedConfig =
       Inr \<lparr>ui = initialState\<lparr>characters := JArr [entity 3], page := 2, hasMore := False\<rparr>,
            rendered = initialState\<lparr>characters := JArr [entity 3], page := 2,
                                      hasMore := False\<rparr>,
            inflight = []\<rparr>"
    by (simp del: step.simps add: retry_failedConfig)
       (simp add: fetchResume_def fetchSettle_samples initialState_def render_def)
  from a b failedConfig_facts retry_failedConfig show ?thesis by blast
qed

text \<open>
  C4, amended. Whenever the retry button is shown, with or without items loaded,
  pressing it calls \<^verbatim>\<open>fetchCharacters(1)\<close>: it requests page 1 with \<open>loading\<close> up and
  leaves the items in place while the request is out. A successful answer replaces the
  items by its results, a failed one keeps them.
\<close>

theorem retry_is_initial_load:
  assumes "retryVisible (rendered c)"
  shows "\<exists>c1. step RetryPressed c = Inr c1 \<and> inflight c1 = inflight c @ [1]
           \<and> loading (ui c1) \<and> characters (ui c1) = characters (ui c)
           \<and> (\<forall>r v. resultsOf r = Some v \<longrightarrow>
                 (\<exists>c2. fetchResume 1 r c1 = Inr c2 \<and> characters (ui c2) = v))
           \<and> (\<forall>r. failed 1 r \<longrightarrow>
                 (\<exists>c2. fetchResume 1 r c1 = Inr c2 \<and> characters (ui c2) = characters (ui c)))"
proof -
  define c1 where "c1 = c\<lparr>ui := (ui c)\<lparr>loading := True, error := None\<rparr>, inflight := inflight c @ [1]\<rparr>"
  have s: "step RetryPressed c = Inr c1"
    using assms by (simp add: retry_def fetchCharacters_eq c1_def)
  have ok: "\<exists>c2. fetchResume 1 r c1 = Inr c2 \<and> characters (ui c2) = v"
    if rv: "resultsOf r = Some v" for r v
  proof -
    obtain b where "fetchSettle 1 r = [SetCharacters v, SetHasMore b, SetLoading False, SetLoadingMore False]"
      using fetchSettle_ok [OF rv, where p = 1] by auto
    then show ?thesis by (simp add: fetchResume_def)
  qed
  have bad: "\<exists>c2. fetchResume 1 r c1 = Inr c2 \<and> characters (ui c2) = characters (ui c)"
    if "failed 1 r" for r
    using that by (simp add: fetchResume_failed c1_def)
  have "inflight c1 = inflight c @ [1]" "loading (ui c1)" "characters (ui c1) = characters (ui c)"
    by (simp_all add: c1_def)
  with s ok bad show ?thesis by blast
qed

theorem retry_is_initial_load_witness:
  "retryVisible (rendered failedConfig)
   \<and> (\<exists>c1. step RetryPressed failedConfig = Inr c1 \<and> inflight c1 = [1] \<and> loading (ui c1)
         \<and> (\<exists>c2. fetchResume 1 lastPage c1 = Inr c2 \<and> characters (ui c2) = JArr [entity 3]))"
proof -
  have i: "inflight failedConfig = []" by (simp add: failedConfig_def)
  from retry_is_initial_load [OF failedConfig_facts(2)]
  obtain c1 where c1: "step RetryPressed failedConfig = Inr c1"
      "inflight c1 = inflight failedConfig @ [1]" "loading (ui c1)"
    and ok: "\<And>r v. resultsOf r = Some v \<Longrightarrow>
               \<exists>c2. fetchResume 1 r c1 = Inr c2 \<and> characters (ui c2) = v"
    by blast
  from ok [OF resultsOf_samples(2)] c1 failedConfig_facts(2)
  show ?thesis unfolding i by auto
qed

text \<open>
  C5. The page number is advanced by \<^verbatim>\<open>loadMore\<close> before the request is made and no
  completion ever sets it. So a failed request for page 2 leaves it at 2, the retry
  reloads page 1 without putting it back to 1, and the next \<^verbatim>\<open>loadMore\<close> asks for
  page 3 with only page 1 loaded: page 2 is never requested again.
\<close>

theorem failed_page_is_skipped:
  "page (ui readyConfig) = 1
   \<and> run [EndReached, Render, Response serverError, Render] readyConfig = Inr failedConfig
   \<and> page (ui failedConfig) = 2
   \<and> run [RetryPressed, Render, Response firstPage, Render, EndReached] failedConfig =
       Inr \<lparr>ui = initialState\<lparr>characters := JArr [entity 1, entity 2], page := 3,
                                loadingMore := True\<rparr>,
            rendered = initialState\<lparr>characters := JArr [entity 1, entity 2], page := 2\<rparr>,
            inflight = [3]\<rparr>"
proof -
  have "run [RetryPressed, Render, Response firstPage, Render, EndReached] failedConfig =
       Inr \<lparr>ui = initialState\<lparr>characters := JArr [entity 1, entity 2], page := 3,
                                loadingMore := True\<rparr>,
            rendered = initialState\<lparr>characters := JArr [entity 1, entity 2], page := 2\<rparr>,
            inflight = [3]\<rparr>"
    by (simp del: step.simps add: retry_failedConfig)
       (simp add: fetchResume_def fetchSettle_samples initialState_def listVisible_def
          errorShown_def loadMore_def fetchCharacters_eq render_def)
  moreover have "page (ui readyConfig) = 1" by (simp add: readyConfig_def initialState_def)
  ultimately show ?thesis using run_ready_to_failed failedConfig_facts(4) by blast
qed

text \<open>
  C6, as the specification has it, fails: with the first page loaded and an error shown,
  a retry leaves the loaded items and the page number in place while it fetches, and
  when that fetch fails too the items are still there, not the empty list.
\<close>

theorem retry_failure_keeps_loaded_items:
  "phase_of (ui failedConfig) = Failed
   \<and> characters (ui failedConfig) = JArr [entity 1, entity 2]
   \<and> step RetryPressed failedConfig =
       Inr \<lparr>ui = initialState\<lparr>characters := JArr [entity 1, entity 2], page := 2,
                                loading := True\<rparr>,
            rendered = initialState\<lparr>characters := JArr [entity 1, entity 2], page := 2,
                                      error := Some errorMessage\<rparr>,
            inflight = [1]\<rparr>
   \<and> run [RetryPressed, Render, Response serverError, Render] failedConfig = Inr failedConfig
   \<and> characters (ui failedConfig) \<noteq> JArr []"
proof -
  have "run [RetryPressed, Render, Response serverError, Render] failedConfig = Inr failedConfig"
    by (simp del: step.simps add: retry_failedConfig)
       (simp add: fetchResume_def fetchSettle_samples failedConfig_def initialState_def
          render_def)
  moreover have "characters (ui failedConfig) \<noteq> JArr []"
    by (simp add: failedConfig_facts(3))
  ultimately show ?thesis using failedConfig_facts retry_failedConfig by blast
qed

text \<open>
  C6, amended. \<^verbatim>\<open>fetchCharacters(1)\<close> does not touch the items before it fetches, and
  when its fetch fails the items are the ones held before and the phase is \<open>Failed\<close>.
  For the freshly mounted screen that is the empty list.
\<close>

theorem initial_failure_leaves_items:
  assumes "failed 1 r"
  shows "\<exists>c1 c2. fetchCharacters 1 c = Inr c1 \<and> characters (ui c1) = characters (ui c)
           \<and> fetchResume 1 r c1 = Inr c2 \<and> characters (ui c2) = characters (ui c)
           \<and> phase_of (ui c2) = Failed"
  by (simp add: fetchCharacters_eq fetchResume_failed [OF assms] phase_Failed_iff errorShown_def
        errorMessage_nonempty)

theorem initial_failure_leaves_items_witness:
  "failed 1 serverError
   \<and> (\<exists>c1 c2. mount initialConfig = Inr c1 \<and> fetchResume 1 serverError c1 = Inr c2
         \<and> characters (ui c2) = JArr [] \<and> phase_of (ui c2) = Failed)"
proof -
  have f: "failed 1 serverError" by (simp add: failed_iff serverError_def)
  have e: "characters (ui initialConfig) = JArr []" by (simp add: initialConfig_def initialState_def)
  from initial_failure_leaves_items [OF f, of initialConfig] f
  show ?thesis unfolding e mount_def by blast
qed

text \<open>
  C7 (failure keeps prior data on incremental loads). From a screen rendered in phase
  \<open>Ready\<close>, \<^verbatim>\<open>loadMore()\<close> issues the request for the next page; if that fetch
  fails, the items are exactly the ones held before and the phase is \<open>Failed\<close>.
\<close>

theorem loadMore_failure_keeps_items:
  assumes "phase_of (rendered c) = Ready" and "failed (page (rendered c) + 1) r"
  shows "\<exists>c1 c2. loadMore c = Inr c1 \<and> inflight c1 = inflight c @ [page (rendered c) + 1]
           \<and> fetchResume (page (rendered c) + 1) r c1 = Inr c2
           \<and> characters (ui c2) = characters (ui c) \<and> phase_of (ui c2) = Failed"
proof -
  from assms(1) have g: "\<not> loadingMore (rendered c)" "\<not> loading (rendered c)"
    "hasMore (rendered c)"
    by (simp_all add: phase_Ready_iff)
  show ?thesis
    unfolding loadMore_passes [OF g] fetchResume_failed [OF assms(2)]
    by (simp add: phase_Failed_iff errorShown_def errorMessage_nonempty)
qed

theorem loadMore_failure_keeps_items_witness:
  "phase_of (rendered readyConfig) = Ready \<and> failed (page (rendered readyConfig) + 1) serverError \<and>
   (\<exists>c1 c2. loadMore readyConfig = Inr c1
           \<and> inflight c1 = inflight readyConfig @ [page (rendered readyConfig) + 1]
           \<and> fetchResume (page (rendered readyConfig) + 1) serverError c1 = Inr c2
           \<and> characters (ui c2) = JArr [entity 1, entity 2] \<and> phase_of (ui c2) = Failed)"
proof -
  have a: "phase_of (rendered readyConfig) = Ready"
    by (simp add: readyConfig_def initialState_def phase_of_def errorShown_def)
  have b: "failed (page (rendered readyConfig) + 1) serverError"
    by (simp add: failed_iff serverError_def)
  have c: "characters (ui readyConfig) = JArr [entity 1, entity 2]"
    by (simp add: readyConfig_def)
  show ?thesis
    using a b loadMore_failure_keeps_items [OF a b] unfolding c by blast
qed



text \<open>
  C9, as the specification has it, fails: a successful response whose JSON object has no
  \<^verbatim>\<open>results\<close> is not a failure. On the first page \<^verbatim>\<open>undefined\<close> is stored as the items,
  no error is set, and the missing \<^verbatim>\<open>info\<close> reads as the end of the list.
\<close>

theorem missing_results_is_stored:
  "run [Response noResults, Render] mountedConfig =
     Inr \<lparr>ui = initialState\<lparr>characters := JUndefined, hasMore := False\<rparr>,
          rendered = initialState\<lparr>characters := JUndefined, hasMore := False\<rparr>,
          inflight = []\<rparr>
   \<and> phase_of (initialState\<lparr>characters := JUndefined, hasMore := False\<rparr>) = Exhausted"
  by (simp add: fetchResume_def fetchSettle_samples mountedConfig_def initialState_def
        phase_of_def errorShown_def render_def)

text \<open>
  C9, amended. A fetch fails exactly when the request is rejected, the response is not
  \<^verbatim>\<open>ok\<close>, its body is not JSON, or its body is \<^verbatim>\<open>null\<close> (reading \<^verbatim>\<open>json.results\<close>
  throws); then the items are kept, the error is set and the phase is \<open>Failed\<close>. Every
  other body is taken as it is: on the first page \<^verbatim>\<open>json.results\<close>, whatever it is,
  becomes the items, and \<open>hasMore\<close> is the truthiness of \<^verbatim>\<open>json.info\<close> and
  \<^verbatim>\<open>json.info.next\<close>.
\<close>

theorem fetch_outcome:
  "(failed p r \<longleftrightarrow>
      (case r of
         Rejected \<Rightarrow> True
       | Http ok status body \<Rightarrow>
           \<not> ok \<or> body = None \<or> body = Some JNull \<or> body = Some JUndefined))
   \<and> (failed p r \<longrightarrow>
        (\<exists>c'. fetchResume p r c = Inr c' \<and> characters (ui c') = characters (ui c)
              \<and> error (ui c') = Some errorMessage \<and> (phase_of (ui c') = Failed)))
   \<and> (\<not> failed 1 r \<longrightarrow>
        (\<exists>status json v b. r = Http True status (Some json)
           \<and> getProp json ''results'' = Inr v \<and> hasNext json = Inr b
           \<and> fetchResume 1 r c =
               Inr (c\<lparr>ui := (ui c)\<lparr>characters := v, hasMore := b, loading := False,
                                   loadingMore := False\<rparr>\<rparr>)))"
proof -
  have a: "failed p r \<Longrightarrow>
        (\<exists>c'. fetchResume p r c = Inr c' \<and> characters (ui c') = characters (ui c)
              \<and> error (ui c') = Some errorMessage \<and> (phase_of (ui c') = Failed))"
    by (simp add: fetchResume_failed phase_Failed_iff errorShown_def errorMessage_nonempty)
  have b: "\<exists>status json v b. r = Http True status (Some json)
           \<and> getProp json ''results'' = Inr v \<and> hasNext json = Inr b
           \<and> fetchResume 1 r c =
               Inr (c\<lparr>ui := (ui c)\<lparr>characters := v, hasMore := b, loading := False,
                                   loadingMore := False\<rparr>\<rparr>)"
    if nf: "\<not> failed 1 r"
  proof -
    from nf obtain v where "resultsOf r = Some v"
      using resultsOf_failed [of r 1] by auto
    then obtain status json where r: "r = Http True status (Some json)"
      and v: "getProp json ''results'' = Inr v"
      by (auto simp: resultsOf_def split: response.splits if_splits option.splits sum.splits)
    from v obtain b where b: "hasNext json = Inr b"
      using hasNext_defined by blast
    have "fetchResume 1 r c =
               Inr (c\<lparr>ui := (ui c)\<lparr>characters := v, hasMore := b, loading := False,
                                   loadingMore := False\<rparr>\<rparr>)"
      using r v b by (simp add: fetchResume_def fetchSettle_def fetchTry_def)
    with r v b show ?thesis by blast
  qed
  from a b failed_iff [of p r] show ?thesis by blast
qed

theorem fetch_outcome_witness:
  "failed 2 serverError \<and> \<not> failed 1 noResults
   \<and> (\<exists>c'. fetchResume 2 serverError readyConfig = Inr c'
          \<and> characters (ui c') = characters (ui readyConfig) \<and> phase_of (ui c') = Failed)
   \<and> (\<exists>b. fetchResume 1 noResults mountedConfig =
          Inr (mountedConfig\<lparr>ui := (ui mountedConfig)\<lparr>characters := JUndefined, hasMore := b,
                 loading := False, loadingMore := False\<rparr>\<rparr>))"
proof -
  have f: "failed 2 serverError" by (simp add: failed_iff serverError_def)
  have n: "\<not> failed 1 noResults" by (simp add: failed_iff noResults_def)
  have g: "getProp json ''results'' = Inr v \<Longrightarrow> noResults = Http True status (Some json) \<Longrightarrow> v = JUndefined"
    for json v status
    by (auto simp: noResults_def)
  from fetch_outcome [of 2 serverError readyConfig] f
  have 1: "\<exists>c'. fetchResume 2 serverError readyConfig = Inr c'
          \<and> characters (ui c') = characters (ui readyConfig) \<and> phase_of (ui c') = Failed"
    by blast
  from fetch_outcome [of 1 noResults mountedConfig] n
  obtain status json v b where o: "noResults = Http True status (Some json)"
      "getProp json ''results'' = Inr v"
      "fetchResume 1 noResults mountedConfig =
          Inr (mountedConfig\<lparr>ui := (ui mountedConfig)\<lparr>characters := v, hasMore := b,
                 loading := False, loadingMore := False\<rparr>\<rparr>)"
    by blast
  from g [OF o(2) o(1)] o(3)
  have 2: "\<exists>b. fetchResume 1 noResults mountedConfig =
          Inr (mountedConfig\<lparr>ui := (ui mountedConfig)\<lparr>characters := JUndefined, hasMore := b,
                 loading := False, loadingMore := False\<rparr>\<rparr>)"
    by blast
  from f n 1 2 show ?thesis by blast
qed

text \<open>
  C10 (the loading flags are always cleared). For every page and every response, the
  setter calls of the continuation of \<^verbatim>\<open>fetchCharacters\<close> end with
  \<^verbatim>\<open>setLoading(false)\<close> and \<^verbatim>\<open>setLoadingMore(false)\<close>, and the state they produce
  has both flags down. The calls fail to produce a state only when the updater of an
  incremental load cannot spread the previous items or the results, which is an
  exception inside React and not in \<^verbatim>\<open>fetchCharacters\<close>.
\<close>

theorem fetch_always_clears_loading:
  "(\<exists>calls. fetchSettle p r = calls @ [SetLoading False, SetLoadingMore False])
   \<and> (\<forall>c c'. fetchResume p r c = Inr c' \<longrightarrow> \<not> loading (ui c') \<and> \<not> loadingMore (ui c'))
   \<and> (\<forall>c e. fetchResume p r c = Inl e \<longrightarrow>
         p \<noteq> 1 \<and> (spread (characters (ui c)) = Inl e
                   \<or> (\<exists>v. resultsOf r = Some v \<and> spread v = Inl e)))"
proof -
  have crash: "p \<noteq> 1 \<and> (spread (characters (ui c)) = Inl e
                   \<or> (\<exists>v. resultsOf r = Some v \<and> spread v = Inl e))"
    if res: "fetchResume p r c = Inl e" for c e
  proof (cases "resultsOf r")
    case None
    then have "failed p r" using resultsOf_failed [of r p] by simp
    with res show ?thesis by (simp add: fetchResume_failed)
  next
    case (Some v)
    then obtain b where "fetchSettle p r =
        [if p = 1 then SetCharacters v else SetCharactersAppend v, SetHasMore b,
         SetLoading False, SetLoadingMore False]"
      using fetchSettle_ok by blast
    with res Some show ?thesis
      by (auto simp: fetchResume_def split: sum.splits if_splits)
  qed
  show ?thesis
    using fetchSettle_ends [of p r] fetchResume_flags [of p r] crash by blast
qed

theorem fetch_always_clears_loading_witness:
  "loading (ui mountedConfig)
   \<and> fetchResume 1 serverError (mountedConfig\<lparr>inflight := []\<rparr>) =
       Inr (failedEmptyConfig\<lparr>rendered := rendered mountedConfig\<rparr>)
   \<and> \<not> loading (ui (failedEmptyConfig\<lparr>rendered := rendered mountedConfig\<rparr>))
   \<and> \<not> loadingMore (ui (failedEmptyConfig\<lparr>rendered := rendered mountedConfig\<rparr>))"
proof -
  have "fetchResume 1 serverError (mountedConfig\<lparr>inflight := []\<rparr>) =
       Inr (failedEmptyConfig\<lparr>rendered := rendered mountedConfig\<rparr>)"
    by (simp add: fetchResume_def fetchSettle_samples mountedConfig_def failedEmptyConfig_def
          initialState_def)
  moreover have "loading (ui mountedConfig)" by (simp add: mountedConfig_def)
  ultimately show ?thesis
    using fetch_always_clears_loading [of 1 serverError] by blast
qed

end
